theory Spec2Isabelle
  imports Main
begin

section \<open>The mini-batch callbacks of \<^verbatim>\<open>total_file_size.py\<close>\<close>

text \<open>
  The module has two entry points, \<^verbatim>\<open>init()\<close> and \<^verbatim>\<open>run(mini_batch)\<close>. Both are
  modelled as functions on an explicit world: what the file system answers to a size
  lookup, what has been printed, which lookups have been made, and the store of list
  objects. Lists are objects with an address, because \<^verbatim>\<open>run\<close> builds its result by
  appending to a list in place while it reads the list it was given.
\<close>

subsection \<open>Values, errors and the world\<close>

text \<open>
  The elements of the lists that occur: path strings in the mini-batch, integers in the
  result. A Python \<^verbatim>\<open>str\<close> is a \<open>string\<close> whose characters are the code points below 256.
  Python does not check what a list holds, so a mini-batch may hold integers as well,
  which \<^verbatim>\<open>os.path.getsize\<close> takes for file descriptors.
\<close>

datatype pyval = PyStr string | PyInt int

text \<open>
  The file-access failures that \<^verbatim>\<open>os.path.getsize\<close> raises (the \<^verbatim>\<open>OSError\<close> family): not
  found, permission denied, any other failure of the operating system. The lookup is a
  library function; the model takes its answers as given, in the field \<open>files\<close> below,
  and its failures to be of this family.
\<close>

datatype os_error = FileNotFoundError | PermissionError | OSError

type_synonym addr = nat

text \<open>
  \<^item> \<open>files\<close>: the file system as \<^verbatim>\<open>os.path.getsize\<close> sees it, the size in bytes or the
    error raised for each argument;
  \<^item> \<open>module_file\<close>: the module's \<^verbatim>\<open>__file__\<close>;
  \<^item> \<open>stdout\<close>: the strings printed so far, one entry for each \<^verbatim>\<open>print\<close>;
  \<^item> \<open>stat_calls\<close>: the arguments of the size lookups made so far, in call order;
  \<^item> \<open>heap\<close>: the contents of the list object at each address;
  \<^item> \<open>next_addr\<close>: the first address not yet allocated.
\<close>

record world =
  files :: "pyval \<Rightarrow> os_error + int"
  module_file :: string
  stdout :: "string list"
  stat_calls :: "pyval list"
  heap :: "addr \<Rightarrow> pyval list"
  next_addr :: addr

subsection \<open>Formatting: \<^verbatim>\<open>str\<close> of an integer, \<^verbatim>\<open>repr\<close> of a list\<close>

fun str_nat :: "nat \<Rightarrow> string" where
  "str_nat n =
     (if n < 10 then [''0123456789'' ! n]
      else str_nat (n div 10) @ [''0123456789'' ! (n mod 10)])"

declare str_nat.simps [simp del]

definition str_int :: "int \<Rightarrow> string" where
  "str_int i = (if i < 0 then CHR ''-'' # str_nat (nat (- i)) else str_nat (nat i))"

text \<open>
  \<^verbatim>\<open>repr\<close> of a \<^verbatim>\<open>str\<close>: single quotes, unless the string has a single quote and no
  double quote; the quote in use and the backslash are escaped, tab, newline and carriage
  return have their letter escapes, and every other code point that is not printable is
  written \<^verbatim>\<open>\xhh\<close>.
\<close>

definition backslash :: char where
  "backslash = CHR 0x5C"

definition printable :: "char \<Rightarrow> bool" where
  "printable c =
     (let n = (of_char c :: nat)
      in \<not> (n < 32 \<or> n = 127 \<or> (128 \<le> n \<and> n \<le> 160) \<or> n = 173))"

definition repr_char :: "char \<Rightarrow> char \<Rightarrow> string" where
  "repr_char quote c =
     (if c = quote \<or> c = backslash then [backslash, c]
      else if c = CHR 0x09 then [backslash, CHR ''t'']
      else if c = CHR 0x0A then [backslash, CHR ''n'']
      else if c = CHR 0x0D then [backslash, CHR ''r'']
      else if printable c then [c]
      else [backslash, CHR ''x'',
            ''0123456789abcdef'' ! ((of_char c :: nat) div 16),
            ''0123456789abcdef'' ! ((of_char c :: nat) mod 16)])"

definition repr_str :: "string \<Rightarrow> string" where
  "repr_str s =
     (let quote = (if CHR 0x27 \<in> set s \<and> CHR 0x22 \<notin> set s then CHR 0x22 else CHR 0x27)
      in [quote] @ concat (map (repr_char quote) s) @ [quote])"

fun repr :: "pyval \<Rightarrow> string" where
  "repr (PyStr s) = repr_str s"
| "repr (PyInt i) = str_int i"

fun join :: "string \<Rightarrow> string list \<Rightarrow> string" where
  "join sep [] = []"
| "join sep [s] = s"
| "join sep (s # t # ss) = s @ sep @ join sep (t # ss)"

definition repr_list :: "pyval list \<Rightarrow> string" where
  "repr_list xs = ''['' @ join '', '' (map repr xs) @ '']''"

subsection \<open>The effects the module uses\<close>

definition print :: "string \<Rightarrow> world \<Rightarrow> world" where
  "print s w = w\<lparr>stdout := stdout w @ [s]\<rparr>"

text \<open>\<^verbatim>\<open>[]\<close>: a new, empty list object at an address not used before.\<close>

definition new_list :: "world \<Rightarrow> addr \<times> world" where
  "new_list w =
     (next_addr w, w\<lparr>heap := (heap w)(next_addr w := []), next_addr := Suc (next_addr w)\<rparr>)"

text \<open>\<^verbatim>\<open>l.append(v)\<close>: the object at \<open>l\<close> grows in place.\<close>

definition list_append :: "addr \<Rightarrow> pyval \<Rightarrow> world \<Rightarrow> world" where
  "list_append l v w = w\<lparr>heap := (heap w)(l := heap w l @ [v])\<rparr>"

text \<open>\<^verbatim>\<open>os.path.getsize(p)\<close>: the lookup is recorded, its answer is the file system's.\<close>

definition getsize :: "pyval \<Rightarrow> world \<Rightarrow> (os_error + int) \<times> world" where
  "getsize p w = (files w p, w\<lparr>stat_calls := stat_calls w @ [p]\<rparr>)"

subsection \<open>\<^verbatim>\<open>init\<close>\<close>

text \<open>
  \<^verbatim>\<open>
  def init():
      print("Init")
  \<close>
\<close>

definition init :: "world \<Rightarrow> (os_error + unit) \<times> world" where
  "init w = (Inr (), print ''Init'' w)"

text \<open>\<open>n\<close> calls of \<^verbatim>\<open>init\<close> in a row; an error would end the sequence.\<close>

fun init_times :: "nat \<Rightarrow> world \<Rightarrow> (os_error + unit) \<times> world" where
  "init_times 0 w = (Inr (), w)"
| "init_times (Suc n) w =
     (case init w of
        (Inl e, w') \<Rightarrow> (Inl e, w')
      | (Inr _, w') \<Rightarrow> init_times n w')"

subsection \<open>\<^verbatim>\<open>run\<close>\<close>

text \<open>
  \<^verbatim>\<open>
  def run(mini_batch):
      print(f'run method start: {__file__}, run({mini_batch})')
      print(f'total_file_count = {len(mini_batch)}')
      file_size_list = []
      total_file_size = 0
      for file_path in mini_batch:
          file_size = os.path.getsize(file_path)
          file_size_list.append(file_size)
          total_file_size += file_size
      print(f'total_file_size = {total_file_size}')

      return file_size_list
  \<close>
  The \<^verbatim>\<open>for\<close> loop steps an index \<open>i\<close> through the list object at \<open>mini_batch\<close> and reads
  the object anew at every step, as Python's list iterator does. A raised error leaves
  the loop with \<open>Inl\<close>; the loop that never ends has the value \<open>None\<close>.
\<close>

partial_function (option) for_loop ::
  "addr \<Rightarrow> addr \<Rightarrow> nat \<Rightarrow> int \<Rightarrow> world \<Rightarrow> ((os_error + int) \<times> world) option" where
  "for_loop mini_batch file_size_list i total_file_size w =
     (if i < length (heap w mini_batch) then
        (case getsize (heap w mini_batch ! i) w of
           (Inl e, w') \<Rightarrow> Some (Inl e, w')
         | (Inr file_size, w') \<Rightarrow>
             for_loop mini_batch file_size_list (Suc i) (total_file_size + file_size)
               (list_append file_size_list (PyInt file_size) w'))
      else Some (Inr total_file_size, w))"

definition run :: "addr \<Rightarrow> world \<Rightarrow> ((os_error + addr) \<times> world) option" where
  "run mini_batch w =
     (let w1 = print (''run method start: '' @ module_file w @ '', run(''
                        @ repr_list (heap w mini_batch) @ '')'') w;
          w2 = print (''total_file_count = '' @ str_int (int (length (heap w1 mini_batch)))) w1;
          (file_size_list, w3) = new_list w2
      in case for_loop mini_batch file_size_list 0 0 w3 of
           None \<Rightarrow> None
         | Some (Inl e, w4) \<Rightarrow> Some (Inl e, w4)
         | Some (Inr total_file_size, w4) \<Rightarrow>
             Some (Inr file_size_list, print (''total_file_size = '' @ str_int total_file_size) w4))"

subsection \<open>What a call returns, and a world to run it in\<close>

text \<open>
  The size lookups of a whole batch as one value, in the words of the specification: the
  sizes of all the paths in their order, or the error of the first path whose lookup
  fails. It is the reference that \<^verbatim>\<open>run\<close> is compared with.
\<close>

fun lookup_sizes :: "(pyval \<Rightarrow> os_error + int) \<Rightarrow> pyval list \<Rightarrow> os_error + int list" where
  "lookup_sizes f [] = Inr []"
| "lookup_sizes f (p # ps) =
     (case f p of
        Inl e \<Rightarrow> Inl e
      | Inr n \<Rightarrow> (case lookup_sizes f ps of Inl e \<Rightarrow> Inl e | Inr ns \<Rightarrow> Inr (n # ns)))"

text \<open>
  What the caller gets from a call: the error raised, or the contents of the list whose
  address is returned, read from the store the call leaves.
\<close>

fun result_of :: "((os_error + addr) \<times> world) option \<Rightarrow> (os_error + pyval list) option" where
  "result_of None = None"
| "result_of (Some (Inl e, w)) = Some (Inl e)"
| "result_of (Some (Inr r, w)) = Some (Inr (heap w r))"

text \<open>
  A file system with \<^verbatim>\<open>a.txt\<close> of 5 bytes and \<^verbatim>\<open>b.txt\<close> of 10 bytes and nothing else,
  and one list object, at address 0.
\<close>

definition example_files :: "pyval \<Rightarrow> os_error + int" where
  "example_files p =
     (if p = PyStr ''a.txt'' then Inr 5
      else if p = PyStr ''b.txt'' then Inr 10
      else Inl FileNotFoundError)"

definition example_world :: "pyval list \<Rightarrow> world" where
  "example_world mini_batch =
     \<lparr>files = example_files, module_file = ''total_file_size.py'', stdout = [],
      stat_calls = [], heap = (\<lambda>a. [])(0 := mini_batch), next_addr = 1\<rparr>"

section \<open>Properties\<close>

subsection \<open>\<^verbatim>\<open>init\<close>\<close>

lemma init_times_eq:
  "init_times n w = (Inr (), w\<lparr>stdout := stdout w @ replicate n ''Init''\<rparr>)"
proof (induction n arbitrary: w)
  case 0
  show ?case by simp
next
  case (Suc n)
  have "replicate n ''Init'' @ [''Init''] = ''Init'' # replicate n ''Init''"
    by (simp flip: replicate_append_same)
  then show ?case
    by (simp add: init_def print_def Suc.IH)
qed

text \<open>
  Claim C5. \<^verbatim>\<open>init\<close> can be called any number of times and never raises: \<open>n\<close> calls in
  a row end without an error, and all they do to the world is to print \<^verbatim>\<open>Init\<close> once
  for each call. The file system, the store of objects, the allocation pointer and the
  record of lookups are as they were, and a single call prints exactly one message.
\<close>

theorem init_repeatable:
  "init_times n w = (Inr (), w\<lparr>stdout := stdout w @ replicate n ''Init''\<rparr>)
   \<and> init w = (Inr (), w\<lparr>stdout := stdout w @ [''Init'']\<rparr>)"
  by (simp add: init_times_eq init_def print_def)

subsection \<open>The loop and the whole call, step by step\<close>

lemma drop_eq_Cons:
  "drop i xs = p # rest \<Longrightarrow> i < length xs \<and> xs ! i = p \<and> drop (Suc i) xs = rest"
proof -
  assume a: "drop i xs = p # rest"
  then have i: "i < length xs"
    by (cases "i < length xs") simp_all
  from i have "drop i xs = xs ! i # drop (Suc i) xs"
    by (simp add: Cons_nth_drop_Suc)
  with a i show ?thesis by simp
qed

lemma for_loop_all:
  assumes "file_size_list \<noteq> mini_batch"
    and "drop i (heap w mini_batch) = rest"
    and "map (files w) rest = map Inr sizes"
  shows "for_loop mini_batch file_size_list i t w =
     Some (Inr (t + sum_list sizes),
           w\<lparr>stat_calls := stat_calls w @ rest,
             heap := (heap w)(file_size_list := heap w file_size_list @ map PyInt sizes)\<rparr>)"
  using assms
proof (induction sizes arbitrary: rest i t w)
  case Nil
  then have "\<not> i < length (heap w mini_batch)" by simp
  with Nil show ?case
    by (subst for_loop.simps) simp
next
  case (Cons n ns)
  then obtain p rest' where rest: "rest = p # rest'" and p: "files w p = Inr n"
    and rest': "map (files w) rest' = map Inr ns"
    by (cases rest) auto
  from Cons.prems(2) rest have "drop i (heap w mini_batch) = p # rest'" by simp
  from drop_eq_Cons [OF this] have i: "i < length (heap w mini_batch)"
    and at: "heap w mini_batch ! i = p" and dr: "drop (Suc i) (heap w mini_batch) = rest'"
    by simp_all
  let ?w = "list_append file_size_list (PyInt n) (w\<lparr>stat_calls := stat_calls w @ [p]\<rparr>)"
  have "for_loop mini_batch file_size_list (Suc i) (t + n) ?w =
     Some (Inr (t + n + sum_list ns),
           ?w\<lparr>stat_calls := stat_calls ?w @ rest',
             heap := (heap ?w)(file_size_list := heap ?w file_size_list @ map PyInt ns)\<rparr>)"
    using Cons.prems(1) dr rest'
    by (intro Cons.IH) (simp_all add: list_append_def)
  then show ?case
    using i at p rest
    by (subst for_loop.simps) (simp add: getsize_def list_append_def add.assoc)
qed

lemma for_loop_fail:
  assumes "file_size_list \<noteq> mini_batch"
    and "drop i (heap w mini_batch) = pre @ p # rest"
    and "map (files w) pre = map Inr sizes"
    and "files w p = Inl e"
  shows "for_loop mini_batch file_size_list i t w =
     Some (Inl e,
           w\<lparr>stat_calls := stat_calls w @ pre @ [p],
             heap := (heap w)(file_size_list := heap w file_size_list @ map PyInt sizes)\<rparr>)"
  using assms
proof (induction sizes arbitrary: pre i t w)
  case Nil
  then have "drop i (heap w mini_batch) = p # rest" by simp
  from drop_eq_Cons [OF this] have "i < length (heap w mini_batch)"
    and "heap w mini_batch ! i = p"
    by simp_all
  with Nil show ?case
    by (subst for_loop.simps) (simp add: getsize_def)
next
  case (Cons n ns)
  then obtain q pre' where pre: "pre = q # pre'" and q: "files w q = Inr n"
    and pre': "map (files w) pre' = map Inr ns"
    by (cases pre) auto
  from Cons.prems(2) pre have "drop i (heap w mini_batch) = q # (pre' @ p # rest)" by simp
  from drop_eq_Cons [OF this] have i: "i < length (heap w mini_batch)"
    and at: "heap w mini_batch ! i = q"
    and dr: "drop (Suc i) (heap w mini_batch) = pre' @ p # rest"
    by simp_all
  let ?w = "list_append file_size_list (PyInt n) (w\<lparr>stat_calls := stat_calls w @ [q]\<rparr>)"
  have "for_loop mini_batch file_size_list (Suc i) (t + n) ?w =
     Some (Inl e,
           ?w\<lparr>stat_calls := stat_calls ?w @ pre' @ [p],
             heap := (heap ?w)(file_size_list := heap ?w file_size_list @ map PyInt ns)\<rparr>)"
    using Cons.prems(1) dr pre' Cons.prems(4)
    by (intro Cons.IH) (simp_all add: list_append_def)
  then show ?case
    using i at q pre
    by (subst for_loop.simps) (simp add: getsize_def list_append_def)
qed

lemma first_failure:
  "(\<exists>sizes. map f xs = map Inr sizes) \<or>
   (\<exists>pre p rest sizes e. xs = pre @ p # rest \<and> map f pre = map Inr sizes \<and> f p = Inl e)"
proof (induction xs)
  case Nil
  show ?case by simp
next
  case (Cons x xs)
  show ?case
  proof (cases "f x")
    case (Inl e)
    then have "x # xs = [] @ x # xs \<and> map f [] = map Inr [] \<and> f x = Inl e" by simp
    then show ?thesis by blast
  next
    case (Inr n)
    from Cons.IH show ?thesis
    proof
      assume "\<exists>sizes. map f xs = map Inr sizes"
      then obtain sizes where "map f xs = map Inr sizes" ..
      with Inr have "map f (x # xs) = map Inr (n # sizes)" by simp
      then show ?thesis by blast
    next
      assume "\<exists>pre p rest sizes e. xs = pre @ p # rest \<and> map f pre = map Inr sizes \<and> f p = Inl e"
      then obtain pre p rest sizes e where "xs = pre @ p # rest"
        and "map f pre = map Inr sizes" and "f p = Inl e" by blast
      with Inr have "x # xs = (x # pre) @ p # rest \<and> map f (x # pre) = map Inr (n # sizes)
          \<and> f p = Inl e" by simp
      then show ?thesis by blast
    qed
  qed
qed

lemma run_unfold:
  "run mini_batch w =
     (case for_loop mini_batch (next_addr w) 0 0
             (snd (new_list (print (''total_file_count = ''
                 @ str_int (int (length (heap w mini_batch))))
               (print (''run method start: '' @ module_file w @ '', run(''
                  @ repr_list (heap w mini_batch) @ '')'') w)))) of
        None \<Rightarrow> None
      | Some (Inl e, w4) \<Rightarrow> Some (Inl e, w4)
      | Some (Inr total_file_size, w4) \<Rightarrow>
          Some (Inr (next_addr w),
                print (''total_file_size = '' @ str_int total_file_size) w4))"
  by (simp add: run_def new_list_def print_def Let_def split: option.splits prod.splits sum.splits)

lemma run_success:
  assumes "mini_batch < next_addr w"
    and "map (files w) (heap w mini_batch) = map Inr sizes"
  shows "run mini_batch w =
     Some (Inr (next_addr w),
           w\<lparr>stdout := stdout w @
               [''run method start: '' @ module_file w @ '', run(''
                  @ repr_list (heap w mini_batch) @ '')'',
                ''total_file_count = '' @ str_int (int (length (heap w mini_batch))),
                ''total_file_size = '' @ str_int (sum_list sizes)],
             stat_calls := stat_calls w @ heap w mini_batch,
             heap := (heap w)(next_addr w := map PyInt sizes),
             next_addr := Suc (next_addr w)\<rparr>)"
proof -
  define w3 where "w3 = snd (new_list (print (''total_file_count = ''
                 @ str_int (int (length (heap w mini_batch))))
               (print (''run method start: '' @ module_file w @ '', run(''
                  @ repr_list (heap w mini_batch) @ '')'') w)))"
  from assms(1) have ne: "next_addr w \<noteq> mini_batch" by simp
  then have h: "heap w3 mini_batch = heap w mini_batch"
    by (simp add: w3_def new_list_def print_def)
  have f: "files w3 = files w"
    by (simp add: w3_def new_list_def print_def)
  have "for_loop mini_batch (next_addr w) 0 0 w3 =
     Some (Inr (0 + sum_list sizes),
           w3\<lparr>stat_calls := stat_calls w3 @ heap w mini_batch,
             heap := (heap w3)(next_addr w := heap w3 (next_addr w) @ map PyInt sizes)\<rparr>)"
  proof (rule for_loop_all)
    show "next_addr w \<noteq> mini_batch" by (rule ne)
    show "drop 0 (heap w3 mini_batch) = heap w mini_batch" using h by simp
    show "map (files w3) (heap w mini_batch) = map Inr sizes" using assms(2) by (simp only: f)
  qed
  then have "run mini_batch w =
     Some (Inr (next_addr w),
       print (''total_file_size = '' @ str_int (sum_list sizes))
         (w3\<lparr>stat_calls := stat_calls w3 @ heap w mini_batch,
             heap := (heap w3)(next_addr w := heap w3 (next_addr w) @ map PyInt sizes)\<rparr>))"
    unfolding run_unfold w3_def [symmetric] by simp
  then show ?thesis
    by (simp add: w3_def new_list_def print_def)
qed

lemma run_failure:
  assumes "mini_batch < next_addr w"
    and "heap w mini_batch = pre @ p # rest"
    and "map (files w) pre = map Inr sizes"
    and "files w p = Inl e"
  shows "run mini_batch w =
     Some (Inl e,
           w\<lparr>stdout := stdout w @
               [''run method start: '' @ module_file w @ '', run(''
                  @ repr_list (heap w mini_batch) @ '')'',
                ''total_file_count = '' @ str_int (int (length (heap w mini_batch)))],
             stat_calls := stat_calls w @ pre @ [p],
             heap := (heap w)(next_addr w := map PyInt sizes),
             next_addr := Suc (next_addr w)\<rparr>)"
proof -
  define w3 where "w3 = snd (new_list (print (''total_file_count = ''
                 @ str_int (int (length (heap w mini_batch))))
               (print (''run method start: '' @ module_file w @ '', run(''
                  @ repr_list (heap w mini_batch) @ '')'') w)))"
  from assms(1) have ne: "next_addr w \<noteq> mini_batch" by simp
  then have h: "heap w3 mini_batch = heap w mini_batch"
    by (simp add: w3_def new_list_def print_def)
  have f: "files w3 = files w"
    by (simp add: w3_def new_list_def print_def)
  have "for_loop mini_batch (next_addr w) 0 0 w3 =
     Some (Inl e,
           w3\<lparr>stat_calls := stat_calls w3 @ pre @ [p],
             heap := (heap w3)(next_addr w := heap w3 (next_addr w) @ map PyInt sizes)\<rparr>)"
  proof (rule for_loop_fail)
    show "next_addr w \<noteq> mini_batch" by (rule ne)
    show "drop 0 (heap w3 mini_batch) = pre @ p # rest" using h assms(2) by simp
    show "map (files w3) pre = map Inr sizes" using assms(3) by (simp only: f)
    show "files w3 p = Inl e" using assms(4) by (simp only: f)
  qed
  then have "run mini_batch w =
     Some (Inl e,
         w3\<lparr>stat_calls := stat_calls w3 @ pre @ [p],
             heap := (heap w3)(next_addr w := heap w3 (next_addr w) @ map PyInt sizes)\<rparr>)"
    unfolding run_unfold w3_def [symmetric] by simp
  then show ?thesis
    by (simp add: w3_def new_list_def print_def)
qed

lemma all_accessible:
  "\<forall>p\<in>set xs. \<exists>n. f p = Inr n \<Longrightarrow> \<exists>sizes. map f xs = map Inr sizes"
proof (induction xs)
  case Nil
  show ?case by simp
next
  case (Cons x xs)
  then obtain n sizes where "f x = Inr n" and "map f xs = map Inr sizes" by auto
  then have "map f (x # xs) = map Inr (n # sizes)" by simp
  then show ?case by blast
qed

lemma lookup_sizes_all: "map f xs = map Inr sizes \<Longrightarrow> lookup_sizes f xs = Inr sizes"
  by (induction xs arbitrary: sizes) auto

lemma lookup_sizes_fail:
  "map f pre = map Inr sizes \<Longrightarrow> f p = Inl e \<Longrightarrow> lookup_sizes f (pre @ p # rest) = Inl e"
  by (induction pre arbitrary: sizes) auto

lemma result_of_run:
  assumes "mini_batch < next_addr w"
  shows "result_of (run mini_batch w) =
     Some (map_sum id (map PyInt) (lookup_sizes (files w) (heap w mini_batch)))"
  using first_failure [of "files w" "heap w mini_batch"]
proof (elim disjE exE conjE)
  fix sizes
  assume a: "map (files w) (heap w mini_batch) = map Inr sizes"
  show ?thesis
    by (simp add: run_success [OF assms a] lookup_sizes_all [OF a])
next
  fix pre p rest sizes e
  assume a: "heap w mini_batch = pre @ p # rest" "map (files w) pre = map Inr sizes"
    "files w p = Inl e"
  have "lookup_sizes (files w) (heap w mini_batch) = Inl e"
    unfolding a(1) using a(2,3) by (rule lookup_sizes_fail)
  then show ?thesis
    by (simp add: run_failure [OF assms a])
qed

subsection \<open>The claims about \<^verbatim>\<open>run\<close>\<close>

text \<open>
  Claim C1. When the mini-batch is an allocated list object and the size lookup succeeds
  on each of its elements, \<^verbatim>\<open>run\<close> returns a list of integers of the same length as the
  mini-batch, whose element \<open>i\<close> is the size the file system reports for element \<open>i\<close> of
  the mini-batch: the order of the result is the order of the input.
\<close>

theorem run_returns_sizes:
  assumes "mini_batch < next_addr w"
    and "\<forall>p\<in>set (heap w mini_batch). \<exists>n. files w p = Inr n"
  shows "\<exists>r w' sizes. run mini_batch w = Some (Inr r, w')
     \<and> heap w' r = map PyInt sizes
     \<and> length sizes = length (heap w mini_batch)
     \<and> (\<forall>i<length (heap w mini_batch). files w (heap w mini_batch ! i) = Inr (sizes ! i))"
proof -
  from all_accessible [OF assms(2)] obtain sizes
    where a: "map (files w) (heap w mini_batch) = map Inr sizes" ..
  then have len: "length sizes = length (heap w mini_batch)"
    by (metis length_map)
  have "files w (heap w mini_batch ! i) = Inr (sizes ! i)" if "i < length (heap w mini_batch)" for i
  proof -
    from that have "files w (heap w mini_batch ! i) = map (files w) (heap w mini_batch) ! i"
      by simp
    also have "\<dots> = Inr (sizes ! i)"
      unfolding a using that len by simp
    finally show ?thesis .
  qed
  then have nth: "\<forall>i<length (heap w mini_batch). files w (heap w mini_batch ! i) = Inr (sizes ! i)"
    by simp
  from run_success [OF assms(1) a] obtain w' where "run mini_batch w = Some (Inr (next_addr w), w')"
    and "heap w' (next_addr w) = map PyInt sizes"
    by simp
  with len nth show ?thesis
    by blast
qed

text \<open>The hypotheses of C1 hold for the two files of the example world.\<close>

theorem run_returns_sizes_witness:
  "\<exists>r w' sizes. run 0 (example_world [PyStr ''a.txt'', PyStr ''b.txt'']) = Some (Inr r, w')
     \<and> heap w' r = map PyInt sizes
     \<and> length sizes = length (heap (example_world [PyStr ''a.txt'', PyStr ''b.txt'']) 0)
     \<and> (\<forall>i<length (heap (example_world [PyStr ''a.txt'', PyStr ''b.txt'']) 0).
           files (example_world [PyStr ''a.txt'', PyStr ''b.txt''])
             (heap (example_world [PyStr ''a.txt'', PyStr ''b.txt'']) 0 ! i) = Inr (sizes ! i))"
proof (rule run_returns_sizes)
  show "0 < next_addr (example_world [PyStr ''a.txt'', PyStr ''b.txt''])"
    by (simp add: example_world_def)
  show "\<forall>p\<in>set (heap (example_world [PyStr ''a.txt'', PyStr ''b.txt'']) 0).
          \<exists>n. files (example_world [PyStr ''a.txt'', PyStr ''b.txt'']) p = Inr n"
    by (simp add: example_world_def example_files_def)
qed

lemma map_Inr_accessible:
  "map f xs = map Inr sizes \<Longrightarrow> p \<in> set xs \<Longrightarrow> \<exists>n. f p = Inr n \<and> n \<in> set sizes"
  by (induction xs arbitrary: sizes) auto

text \<open>
  Claim C2. \<^verbatim>\<open>run\<close> ends with an error, and so returns no list at all, exactly when the
  lookup fails on some element of the mini-batch; it returns a list exactly when the
  lookup succeeds on every element; and the error it ends with is the error of a lookup
  on one of the elements, handed on as it was raised.
\<close>

theorem run_raises_iff_inaccessible:
  assumes "mini_batch < next_addr w"
  shows "((\<exists>p\<in>set (heap w mini_batch). \<exists>e. files w p = Inl e)
            \<longleftrightarrow> (\<exists>e w'. run mini_batch w = Some (Inl e, w')))
     \<and> ((\<forall>p\<in>set (heap w mini_batch). \<exists>n. files w p = Inr n)
            \<longleftrightarrow> (\<exists>r w'. run mini_batch w = Some (Inr r, w')))
     \<and> (\<forall>e w'. run mini_batch w = Some (Inl e, w')
            \<longrightarrow> (\<exists>p\<in>set (heap w mini_batch). files w p = Inl e))"
  using first_failure [of "files w" "heap w mini_batch"]
proof (elim disjE exE conjE)
  fix sizes
  assume a: "map (files w) (heap w mini_batch) = map Inr sizes"
  have acc: "\<forall>p\<in>set (heap w mini_batch). \<exists>n. files w p = Inr n"
    using map_Inr_accessible [OF a] by blast
  then have "\<not> (\<exists>p\<in>set (heap w mini_batch). \<exists>e. files w p = Inl e)"
    by fastforce
  with acc show ?thesis
    by (simp add: run_success [OF assms a])
next
  fix pre p rest sizes e
  assume a: "heap w mini_batch = pre @ p # rest" "map (files w) pre = map Inr sizes"
    "files w p = Inl e"
  from a(1) have "p \<in> set (heap w mini_batch)" by simp
  with a(3) have bad: "\<exists>p\<in>set (heap w mini_batch). files w p = Inl e"
    by blast
  then have "\<not> (\<forall>p\<in>set (heap w mini_batch). \<exists>n. files w p = Inr n)"
    by fastforce
  with bad show ?thesis
    by (auto simp add: run_failure [OF assms a])
qed

text \<open>C2 at a mini-batch with a missing file, and at one whose files all exist.\<close>

theorem run_raises_iff_inaccessible_witness:
  "(\<exists>e w'. run 0 (example_world [PyStr ''a.txt'', PyStr ''missing.txt'']) = Some (Inl e, w'))
   \<and> (\<exists>r w'. run 0 (example_world [PyStr ''a.txt'', PyStr ''b.txt'']) = Some (Inr r, w'))"
proof
  have "0 < next_addr (example_world [PyStr ''a.txt'', PyStr ''missing.txt''])"
    by (simp add: example_world_def)
  from run_raises_iff_inaccessible [OF this]
  show "\<exists>e w'. run 0 (example_world [PyStr ''a.txt'', PyStr ''missing.txt'']) = Some (Inl e, w')"
    by (simp add: example_world_def example_files_def)
next
  have "0 < next_addr (example_world [PyStr ''a.txt'', PyStr ''b.txt''])"
    by (simp add: example_world_def)
  from run_raises_iff_inaccessible [OF this]
  show "\<exists>r w'. run 0 (example_world [PyStr ''a.txt'', PyStr ''b.txt'']) = Some (Inr r, w')"
    by (simp add: example_world_def example_files_def)
qed

text \<open>
  Claim C3. On an empty mini-batch \<^verbatim>\<open>run\<close> does not raise and returns an empty list.
\<close>

theorem run_empty:
  assumes "heap w mini_batch = []"
  shows "\<exists>r w'. run mini_batch w = Some (Inr r, w') \<and> heap w' r = []"
proof -
  define w3 where "w3 = snd (new_list (print (''total_file_count = ''
                 @ str_int (int (length (heap w mini_batch))))
               (print (''run method start: '' @ module_file w @ '', run(''
                  @ repr_list (heap w mini_batch) @ '')'') w)))"
  have h: "heap w3 mini_batch = []" and r: "heap w3 (next_addr w) = []"
    using assms by (simp_all add: w3_def new_list_def print_def)
  have "for_loop mini_batch (next_addr w) 0 0 w3 = Some (Inr 0, w3)"
    by (subst for_loop.simps) (simp add: h)
  then have "run mini_batch w =
     Some (Inr (next_addr w), print (''total_file_size = '' @ str_int 0) w3)"
    unfolding run_unfold w3_def [symmetric] by simp
  moreover have "heap (print (''total_file_size = '' @ str_int 0) w3) (next_addr w) = []"
    using r by (simp add: print_def)
  ultimately show ?thesis
    by blast
qed

text \<open>C3 at the empty list in the example world.\<close>

theorem run_empty_witness:
  "\<exists>r w'. run 0 (example_world []) = Some (Inr r, w') \<and> heap w' r = []"
proof (rule run_empty)
  show "heap (example_world []) 0 = []"
    by (simp add: example_world_def)
qed

text \<open>
  Claim C4. When the mini-batch is \<^verbatim>\<open>["a.txt", "b.txt"]\<close>, \<^verbatim>\<open>a.txt\<close> has 5 bytes and
  \<^verbatim>\<open>b.txt\<close> has 10 bytes, \<^verbatim>\<open>run\<close> returns exactly \<^verbatim>\<open>[5, 10]\<close>.
\<close>

theorem run_example:
  assumes "mini_batch < next_addr w"
    and "heap w mini_batch = [PyStr ''a.txt'', PyStr ''b.txt'']"
    and "files w (PyStr ''a.txt'') = Inr 5"
    and "files w (PyStr ''b.txt'') = Inr 10"
  shows "\<exists>r w'. run mini_batch w = Some (Inr r, w') \<and> heap w' r = [PyInt 5, PyInt 10]"
proof -
  have a: "map (files w) (heap w mini_batch) = map Inr [5, 10]"
    using assms(2,3,4) by simp
  from run_success [OF assms(1) a] obtain w' where "run mini_batch w = Some (Inr (next_addr w), w')"
    and "heap w' (next_addr w) = map PyInt [5, 10]"
    by simp
  then show ?thesis
    by simp
qed

text \<open>C4 in the example world, which has these two files.\<close>

theorem run_example_witness:
  "\<exists>r w'. run 0 (example_world [PyStr ''a.txt'', PyStr ''b.txt'']) = Some (Inr r, w')
     \<and> heap w' r = [PyInt 5, PyInt 10]"
proof (rule run_example)
  show "0 < next_addr (example_world [PyStr ''a.txt'', PyStr ''b.txt''])"
    by (simp add: example_world_def)
  show "heap (example_world [PyStr ''a.txt'', PyStr ''b.txt'']) 0 = [PyStr ''a.txt'', PyStr ''b.txt'']"
    by (simp add: example_world_def)
  show "files (example_world [PyStr ''a.txt'', PyStr ''b.txt'']) (PyStr ''a.txt'') = Inr 5"
    by (simp add: example_world_def example_files_def)
  show "files (example_world [PyStr ''a.txt'', PyStr ''b.txt'']) (PyStr ''b.txt'') = Inr 10"
    by (simp add: example_world_def example_files_def)
qed

lemma run_effect:
  assumes "mini_batch < next_addr w"
  shows "\<exists>res w' printed calls sizes. run mini_batch w = Some (res, w')
     \<and> w' = w\<lparr>stdout := stdout w @ printed, stat_calls := stat_calls w @ calls,
               heap := (heap w)(next_addr w := map PyInt sizes),
               next_addr := Suc (next_addr w)\<rparr>
     \<and> (res = Inr (next_addr w) \<or> (\<exists>e. res = Inl e))"
  using first_failure [of "files w" "heap w mini_batch"]
proof (elim disjE exE conjE)
  fix sizes
  assume a: "map (files w) (heap w mini_batch) = map Inr sizes"
  show ?thesis
    unfolding run_success [OF assms a] by blast
next
  fix pre p rest sizes e
  assume a: "heap w mini_batch = pre @ p # rest" "map (files w) pre = map Inr sizes"
    "files w p = Inl e"
  show ?thesis
    unfolding run_failure [OF assms a] by blast
qed

lemma run_returns_cases:
  assumes "mini_batch < next_addr w" and "run mini_batch w = Some (Inr r, w')"
  obtains sizes where "map (files w) (heap w mini_batch) = map Inr sizes"
  using first_failure [of "files w" "heap w mini_batch"]
proof (elim disjE exE conjE)
  fix sizes
  assume "map (files w) (heap w mini_batch) = map Inr sizes"
  then show ?thesis by (rule that)
next
  fix pre p rest sizes e
  assume a: "heap w mini_batch = pre @ p # rest" "map (files w) pre = map Inr sizes"
    "files w p = Inl e"
  from run_failure [OF assms(1) a] assms(2) show ?thesis by simp
qed

text \<open>
  Claim C6. Every call of \<^verbatim>\<open>run\<close> that returns has printed three messages, after
  whatever was printed before: the start line, the count line, whose number is the length
  of the mini-batch, and the total line, whose number is the sum of the sizes in the list
  returned.
\<close>

theorem run_reports_count_and_total:
  assumes "mini_batch < next_addr w"
    and "run mini_batch w = Some (Inr r, w')"
  shows "\<exists>sizes. heap w' r = map PyInt sizes
     \<and> stdout w' = stdout w @
          [''run method start: '' @ module_file w @ '', run(''
             @ repr_list (heap w mini_batch) @ '')'',
           ''total_file_count = '' @ str_int (int (length (heap w mini_batch))),
           ''total_file_size = '' @ str_int (sum_list sizes)]"
proof -
  from assms obtain sizes where a: "map (files w) (heap w mini_batch) = map Inr sizes"
    by (rule run_returns_cases)
  from run_success [OF assms(1) a] assms(2)
  have "heap w' r = map PyInt sizes
     \<and> stdout w' = stdout w @
          [''run method start: '' @ module_file w @ '', run(''
             @ repr_list (heap w mini_batch) @ '')'',
           ''total_file_count = '' @ str_int (int (length (heap w mini_batch))),
           ''total_file_size = '' @ str_int (sum_list sizes)]"
    by auto
  then show ?thesis ..
qed

lemma example_start_line:
  "''run method start: '' @ module_file (example_world [PyStr ''a.txt'', PyStr ''b.txt''])
     @ '', run('' @ repr_list (heap (example_world [PyStr ''a.txt'', PyStr ''b.txt'']) 0) @ '')''
   = ''run method start: total_file_size.py, run(['a.txt', 'b.txt'])''"
  by (simp add: example_world_def repr_list_def repr_str_def repr_char_def printable_def
      backslash_def Let_def)

lemma str_int_2: "str_int 2 = ''2''"
  by (simp add: str_int_def str_nat.simps)

lemma str_int_15: "str_int 15 = ''15''"
  by (simp add: str_int_def str_nat.simps)

text \<open>C6 in the example world: the three lines as they appear, with count 2 and total 15.\<close>

theorem run_reports_count_and_total_witness:
  "\<exists>r w'. run 0 (example_world [PyStr ''a.txt'', PyStr ''b.txt'']) = Some (Inr r, w')
     \<and> heap w' r = [PyInt 5, PyInt 10]
     \<and> stdout w' =
          [''run method start: total_file_size.py, run(['a.txt', 'b.txt'])'',
           ''total_file_count = 2'',
           ''total_file_size = 15'']"
proof -
  let ?w = "example_world [PyStr ''a.txt'', PyStr ''b.txt'']"
  have alloc: "0 < next_addr ?w"
    by (simp add: example_world_def)
  have "map (files ?w) (heap ?w 0) = map Inr [5, 10]"
    by (simp add: example_world_def example_files_def)
  from run_success [OF alloc this] obtain w'
    where r: "run 0 ?w = Some (Inr (next_addr ?w), w')"
      and h: "heap w' (next_addr ?w) = map PyInt [5, 10]"
    by simp
  from run_reports_count_and_total [OF alloc r] obtain sizes
    where s: "heap w' (next_addr ?w) = map PyInt sizes"
      and out: "stdout w' = stdout ?w @
          [''run method start: '' @ module_file ?w @ '', run('' @ repr_list (heap ?w 0) @ '')'',
           ''total_file_count = '' @ str_int (int (length (heap ?w 0))),
           ''total_file_size = '' @ str_int (sum_list sizes)]"
    by blast
  from h s have "map PyInt sizes = map PyInt [5, 10]"
    by simp
  moreover have "inj PyInt"
    by (simp add: inj_on_def)
  ultimately have "sizes = [5, 10]"
    by (simp only: inj_map_eq_map)
  with out have "stdout w' =
          [''run method start: total_file_size.py, run(['a.txt', 'b.txt'])'',
           ''total_file_count = 2'',
           ''total_file_size = 15'']"
    unfolding example_start_line
    by (simp add: example_world_def str_int_2 str_int_15)
  with r h show ?thesis
    by simp
qed

text \<open>
  Claim C7. \<^verbatim>\<open>run\<close> only reads its mini-batch. After the call, whether it returned or
  raised, the list object at \<open>mini_batch\<close> and every other object allocated before the
  call have their old contents; a returned list is a new object, at an address that was
  not allocated before and so differs from \<open>mini_batch\<close>; the file system and the module's
  \<^verbatim>\<open>__file__\<close> are as they were. Nothing that the call leaves behind changes what a later
  call returns: on every object allocated before, \<^verbatim>\<open>run\<close> gives the same result after
  the call as it would have given instead of it.
\<close>

theorem run_leaves_input_unchanged:
  assumes "mini_batch < next_addr w"
  shows "\<exists>res w'. run mini_batch w = Some (res, w')
     \<and> heap w' mini_batch = heap w mini_batch
     \<and> (\<forall>a<next_addr w. heap w' a = heap w a)
     \<and> (\<forall>r. res = Inr r \<longrightarrow> r \<noteq> mini_batch \<and> \<not> r < next_addr w)
     \<and> files w' = files w \<and> module_file w' = module_file w
     \<and> (\<forall>other<next_addr w. result_of (run other w') = result_of (run other w))"
proof -
  from run_effect [OF assms] obtain res w' printed calls sizes
    where r: "run mini_batch w = Some (res, w')"
      and w': "w' = w\<lparr>stdout := stdout w @ printed, stat_calls := stat_calls w @ calls,
               heap := (heap w)(next_addr w := map PyInt sizes),
               next_addr := Suc (next_addr w)\<rparr>"
      and res: "res = Inr (next_addr w) \<or> (\<exists>e. res = Inl e)"
    by blast
  have old: "heap w' a = heap w a" if "a < next_addr w" for a
    using that by (simp add: w')
  have f: "files w' = files w" and m: "module_file w' = module_file w"
    and n: "next_addr w' = Suc (next_addr w)"
    by (simp_all add: w')
  have fresh: "\<forall>r. res = Inr r \<longrightarrow> r \<noteq> mini_batch \<and> \<not> r < next_addr w"
    using res assms by auto
  have "result_of (run other w') = result_of (run other w)" if "other < next_addr w" for other
  proof -
    from that have "other < next_addr w'" by (simp add: n)
    then have "result_of (run other w') =
        Some (map_sum id (map PyInt) (lookup_sizes (files w') (heap w' other)))"
      by (rule result_of_run)
    also have "\<dots> = Some (map_sum id (map PyInt) (lookup_sizes (files w) (heap w other)))"
      by (simp only: f old [OF that])
    also have "\<dots> = result_of (run other w)"
      using that by (rule result_of_run [symmetric])
    finally show ?thesis .
  qed
  with r old [OF assms] old fresh f m show ?thesis
    by blast
qed

text \<open>C7 in the example world, for a second call on the same mini-batch.\<close>

theorem run_leaves_input_unchanged_witness:
  "\<exists>res w'. run 0 (example_world [PyStr ''a.txt'', PyStr ''b.txt'']) = Some (res, w')
     \<and> heap w' 0 = [PyStr ''a.txt'', PyStr ''b.txt'']
     \<and> files w' = example_files
     \<and> result_of (run 0 w') = result_of (run 0 (example_world [PyStr ''a.txt'', PyStr ''b.txt'']))"
proof -
  have alloc: "0 < next_addr (example_world [PyStr ''a.txt'', PyStr ''b.txt''])"
    by (simp add: example_world_def)
  from run_leaves_input_unchanged [OF alloc] obtain res w'
    where "run 0 (example_world [PyStr ''a.txt'', PyStr ''b.txt'']) = Some (res, w')"
      and "heap w' 0 = heap (example_world [PyStr ''a.txt'', PyStr ''b.txt'']) 0"
      and "files w' = files (example_world [PyStr ''a.txt'', PyStr ''b.txt''])"
      and "\<forall>other<next_addr (example_world [PyStr ''a.txt'', PyStr ''b.txt'']).
             result_of (run other w')
               = result_of (run other (example_world [PyStr ''a.txt'', PyStr ''b.txt'']))"
    by blast
  with alloc show ?thesis
    by (auto simp add: example_world_def)
qed

text \<open>
  Claim C8. When the file system reports no negative size for an element of the
  mini-batch, every integer in the list that \<^verbatim>\<open>run\<close> returns is non-negative, and so is
  their sum, which is the total in the last line printed.
\<close>

theorem run_sizes_nonnegative:
  assumes "mini_batch < next_addr w"
    and "\<forall>p\<in>set (heap w mini_batch). \<forall>n. files w p = Inr n \<longrightarrow> 0 \<le> n"
    and "run mini_batch w = Some (Inr r, w')"
  shows "\<exists>sizes. heap w' r = map PyInt sizes
     \<and> (\<forall>n\<in>set sizes. 0 \<le> n)
     \<and> 0 \<le> sum_list sizes
     \<and> last (stdout w') = ''total_file_size = '' @ str_int (sum_list sizes)"
proof -
  from assms(1,3) obtain sizes where a: "map (files w) (heap w mini_batch) = map Inr sizes"
    by (rule run_returns_cases)
  have nonneg: "\<forall>n\<in>set sizes. 0 \<le> n"
  proof
    fix n
    assume "n \<in> set sizes"
    then have "Inr n \<in> set (map (files w) (heap w mini_batch))"
      unfolding a by simp
    then obtain p where "p \<in> set (heap w mini_batch)" and "files w p = Inr n"
      by auto
    with assms(2) show "0 \<le> n"
      by blast
  qed
  then have "0 \<le> sum_list sizes"
    by (simp add: sum_list_nonneg)
  moreover from run_success [OF assms(1) a] assms(3)
  have "heap w' r = map PyInt sizes"
    and "last (stdout w') = ''total_file_size = '' @ str_int (sum_list sizes)"
    by auto
  ultimately show ?thesis
    using nonneg by blast
qed

text \<open>C8 in the example world, whose sizes are 5 and 10.\<close>

theorem run_sizes_nonnegative_witness:
  "\<exists>r w' sizes. run 0 (example_world [PyStr ''a.txt'', PyStr ''b.txt'']) = Some (Inr r, w')
     \<and> heap w' r = map PyInt sizes
     \<and> 0 \<le> sum_list sizes
     \<and> last (stdout w') = ''total_file_size = '' @ str_int (sum_list sizes)"
proof -
  have alloc: "0 < next_addr (example_world [PyStr ''a.txt'', PyStr ''b.txt''])"
    by (simp add: example_world_def)
  have nonneg: "\<forall>p\<in>set (heap (example_world [PyStr ''a.txt'', PyStr ''b.txt'']) 0).
      \<forall>n. files (example_world [PyStr ''a.txt'', PyStr ''b.txt'']) p = Inr n \<longrightarrow> 0 \<le> n"
    by (simp add: example_world_def example_files_def)
  have "map (files (example_world [PyStr ''a.txt'', PyStr ''b.txt'']))
          (heap (example_world [PyStr ''a.txt'', PyStr ''b.txt'']) 0) = map Inr [5, 10]"
    by (simp add: example_world_def example_files_def)
  from run_success [OF alloc this] obtain w'
    where r: "run 0 (example_world [PyStr ''a.txt'', PyStr ''b.txt''])
                = Some (Inr (next_addr (example_world [PyStr ''a.txt'', PyStr ''b.txt''])), w')"
    by simp
  from run_sizes_nonnegative [OF alloc nonneg r] r show ?thesis
    by blast
qed

text \<open>
  Claim C9. What \<^verbatim>\<open>run\<close> returns is a function of the file system and of the contents
  of the mini-batch alone, namely \<open>lookup_sizes\<close> of the two. Two calls, in worlds with
  the same file system and on mini-batches with the same contents, give the same result,
  wherever the mini-batches are stored and whatever else the two worlds hold.
\<close>

theorem run_deterministic:
  assumes "mini_batch < next_addr w" and "mini_batch' < next_addr w'"
    and "files w = files w'"
    and "heap w mini_batch = heap w' mini_batch'"
  shows "result_of (run mini_batch w) = result_of (run mini_batch' w')
     \<and> result_of (run mini_batch w) =
           Some (map_sum id (map PyInt) (lookup_sizes (files w) (heap w mini_batch)))"
  by (simp add: result_of_run [OF assms(1)] result_of_run [OF assms(2)] assms(3,4))

text \<open>
  C9 for the example world and a world that differs from it in its output, its record
  of lookups, its store and the address of the mini-batch.
\<close>

theorem run_deterministic_witness:
  "result_of (run 0 (example_world [PyStr ''a.txt'', PyStr ''b.txt'']))
     = result_of (run 3 ((example_world [])
         \<lparr>stdout := [''Init''], stat_calls := [PyStr ''c.txt''],
          heap := (\<lambda>a. [PyInt 1])(3 := [PyStr ''a.txt'', PyStr ''b.txt'']), next_addr := 7\<rparr>))
   \<and> result_of (run 0 (example_world [PyStr ''a.txt'', PyStr ''b.txt'']))
     = Some (Inr [PyInt 5, PyInt 10])"
proof -
  let ?w = "example_world [PyStr ''a.txt'', PyStr ''b.txt'']"
  let ?w' = "(example_world [])
         \<lparr>stdout := [''Init''], stat_calls := [PyStr ''c.txt''],
          heap := (\<lambda>a. [PyInt 1])(3 := [PyStr ''a.txt'', PyStr ''b.txt'']), next_addr := 7\<rparr>"
  have 1: "0 < next_addr ?w" and 2: "3 < next_addr ?w'" and 3: "files ?w = files ?w'"
    and 4: "heap ?w 0 = heap ?w' 3"
    by (simp_all add: example_world_def)
  have l: "lookup_sizes (files ?w) (heap ?w 0) = Inr [5, 10]"
    by (simp add: example_world_def example_files_def)
  from run_deterministic [OF 1 2 3 4]
  have same: "result_of (run 0 ?w) = result_of (run 3 ?w')"
    and "result_of (run 0 ?w) =
           Some (map_sum id (map PyInt) (lookup_sizes (files ?w) (heap ?w 0)))"
    by blast+
  then have "result_of (run 0 ?w) = Some (Inr [PyInt 5, PyInt 10])"
    by (simp only: l map_sum.simps list.map)
  with same show ?thesis
    by (rule conjI)
qed

text \<open>
  Claim C10. The lookups go from left to right. When the mini-batch is \<open>pre @ p # rest\<close>,
  the lookup succeeds on all of \<open>pre\<close> and fails on \<open>p\<close> with the error \<open>e\<close>, then
  \<^verbatim>\<open>run\<close> raises \<open>e\<close>, and the lookups it has made are those on \<open>pre\<close>, in order, followed
  by the failing one on \<open>p\<close>: nothing of \<open>rest\<close> has been looked up.
\<close>

theorem run_fails_at_first_inaccessible:
  assumes "mini_batch < next_addr w"
    and "heap w mini_batch = pre @ p # rest"
    and "\<forall>q\<in>set pre. \<exists>n. files w q = Inr n"
    and "files w p = Inl e"
  shows "\<exists>w'. run mini_batch w = Some (Inl e, w')
     \<and> stat_calls w' = stat_calls w @ pre @ [p]"
proof -
  from all_accessible [OF assms(3)] obtain sizes
    where a: "map (files w) pre = map Inr sizes" ..
  from run_failure [OF assms(1,2) a assms(4)] show ?thesis
    by simp
qed

text \<open>C10 for a missing file between two files that exist.\<close>

theorem run_fails_at_first_inaccessible_witness:
  "\<exists>w'. run 0 (example_world [PyStr ''a.txt'', PyStr ''missing.txt'', PyStr ''b.txt''])
           = Some (Inl FileNotFoundError, w')
     \<and> stat_calls w' = [PyStr ''a.txt'', PyStr ''missing.txt'']"
proof -
  let ?w = "example_world [PyStr ''a.txt'', PyStr ''missing.txt'', PyStr ''b.txt'']"
  have 1: "0 < next_addr ?w"
    and 2: "heap ?w 0 = [PyStr ''a.txt''] @ PyStr ''missing.txt'' # [PyStr ''b.txt'']"
    and 3: "\<forall>q\<in>set [PyStr ''a.txt'']. \<exists>n. files ?w q = Inr n"
    and 4: "files ?w (PyStr ''missing.txt'') = Inl FileNotFoundError"
    by (simp_all add: example_world_def example_files_def)
  from run_fails_at_first_inaccessible [OF 1 2 3 4] show ?thesis
    by (simp add: example_world_def)
qed

end
